theory Spec2Isabelle
  imports Complex_Main "HOL-Library.Sublist" "HOL-Library.Log_Nat"
begin

section \<open>The invoice pricing calculator of \<^verbatim>\<open>invoice_service.py\<close>\<close>

text \<open>
  A shallow embedding of \<^verbatim>\<open>InvoiceService\<close>. Amounts are Python \<^verbatim>\<open>float\<close>s, that is
  IEEE 754 binary64 values with round-to-nearest, ties-to-even arithmetic; quantities are
  Python's unbounded \<^verbatim>\<open>int\<close>s. Strings are character lists; a raised exception is the
  \<open>Inl\<close> branch of a sum.
\<close>

subsection \<open>Python floats\<close>

text \<open>
  A float is a finite value, an infinity or a NaN. A finite value is kept as the rational
  number it denotes; the sign of a zero is not kept (Python's comparisons do not see it,
  and the code never divides). Every operation rounds its exact result to the nearest
  double.
\<close>

datatype pyfloat = Finite rat | PosInf | NegInf | NaN

definition pow2 :: "int \<Rightarrow> rat" where
  "pow2 k = (if 0 \<le> k then 2 ^ nat k else 1 / 2 ^ nat (- k))"

text \<open>Rounding to the nearest integer, a tie going to the even neighbour.\<close>

definition round_half_even :: "rat \<Rightarrow> int" where
  "round_half_even x =
     (let f = \<lfloor>x\<rfloor>; d = x - of_int f
      in if d < 1 / 2 then f else if 1 / 2 < d then f + 1 else if even f then f else f + 1)"

text \<open>The binary exponent \<open>\<lfloor>log\<^sub>2 x\<rfloor>\<close> of a positive rational.\<close>

definition ilog2 :: "rat \<Rightarrow> int" where
  "ilog2 x = (if 1 \<le> x then bitlen \<lfloor>x\<rfloor> - 1 else - bitlen (\<lceil>1 / x\<rceil> - 1))"

text \<open>
  The double nearest to a rational: 53 significant bits at the exponent of \<open>x\<close>, the
  exponent not below \<open>-1022\<close> (subnormal numbers), and an infinity when the rounded value
  reaches \<open>2\<^sup>1\<^sup>0\<^sup>2\<^sup>4\<close>.
\<close>

definition round_to_double :: "rat \<Rightarrow> pyfloat" where
  "round_to_double x =
     (if x = 0 then Finite 0
      else
        (let e = max (ilog2 \<bar>x\<bar>) (- 1022) in
         if 1024 \<le> e then (if 0 < x then PosInf else NegInf)
         else
           (let ulp = pow2 (e - 52);
                m = round_half_even (\<bar>x\<bar> / ulp)
            in if e = 1023 \<and> m = 2 ^ 53 then (if 0 < x then PosInf else NegInf)
               else Finite (if 0 < x then of_int m * ulp else - (of_int m * ulp)))))"

text \<open>A decimal literal of the source, such as \<^verbatim>\<open>0.07\<close>, is the double nearest to it.\<close>

definition float_lit :: "rat \<Rightarrow> pyfloat" where
  "float_lit x = round_to_double x"

fun fneg :: "pyfloat \<Rightarrow> pyfloat" where
  "fneg (Finite a) = Finite (- a)"
| "fneg PosInf = NegInf"
| "fneg NegInf = PosInf"
| "fneg NaN = NaN"

fun fadd :: "pyfloat \<Rightarrow> pyfloat \<Rightarrow> pyfloat" where
  "fadd (Finite a) (Finite b) = round_to_double (a + b)"
| "fadd NaN y = NaN"
| "fadd x NaN = NaN"
| "fadd PosInf NegInf = NaN"
| "fadd NegInf PosInf = NaN"
| "fadd PosInf y = PosInf"
| "fadd x PosInf = PosInf"
| "fadd NegInf y = NegInf"
| "fadd x NegInf = NegInf"

definition fsub :: "pyfloat \<Rightarrow> pyfloat \<Rightarrow> pyfloat" where
  "fsub x y = fadd x (fneg y)"

text \<open>The product of an infinity and a finite value: NaN for zero, else the infinity
  with the product's sign.\<close>

definition inf_times :: "bool \<Rightarrow> rat \<Rightarrow> pyfloat" where
  "inf_times positive a =
     (if a = 0 then NaN else if (0 < a) = positive then PosInf else NegInf)"

fun fmul :: "pyfloat \<Rightarrow> pyfloat \<Rightarrow> pyfloat" where
  "fmul (Finite a) (Finite b) = round_to_double (a * b)"
| "fmul NaN y = NaN"
| "fmul x NaN = NaN"
| "fmul PosInf (Finite b) = inf_times True b"
| "fmul NegInf (Finite b) = inf_times False b"
| "fmul (Finite a) PosInf = inf_times True a"
| "fmul (Finite a) NegInf = inf_times False a"
| "fmul PosInf PosInf = PosInf"
| "fmul NegInf NegInf = PosInf"
| "fmul PosInf NegInf = NegInf"
| "fmul NegInf PosInf = NegInf"

text \<open>\<^verbatim>\<open>x < y\<close>; false whenever a NaN is involved. \<^verbatim>\<open>x > y\<close> is \<open>flt y x\<close>. Python
  compares a float with an \<^verbatim>\<open>int\<close> exactly, so an integer constant \<open>c\<close> of the source
  stands in a comparison as \<open>Finite c\<close>.\<close>

fun flt :: "pyfloat \<Rightarrow> pyfloat \<Rightarrow> bool" where
  "flt (Finite a) (Finite b) = (a < b)"
| "flt NaN y = False"
| "flt x NaN = False"
| "flt x NegInf = False"
| "flt PosInf y = False"
| "flt NegInf y = True"
| "flt x PosInf = True"


text \<open>\<^verbatim>\<open>max(a, b)\<close> of two arguments: \<open>b\<close> only when it is strictly greater.\<close>

definition py_max :: "pyfloat \<Rightarrow> pyfloat \<Rightarrow> pyfloat" where
  "py_max a b = (if flt a b then b else a)"

text \<open>A value that rounding leaves unchanged: every double is one, and every result of
  an operation.\<close>

fun is_double :: "pyfloat \<Rightarrow> bool" where
  "is_double (Finite r) = (round_to_double r = Finite r)"
| "is_double PosInf = True"
| "is_double NegInf = True"
| "is_double NaN = True"

subsection \<open>Data model\<close>

record LineItem =
  sku :: string
  category :: string
  unit_price :: pyfloat
  qty :: int
  fragile :: bool

record Invoice =
  invoice_id :: string
  customer_id :: string
  country :: string
  membership :: string
  coupon :: "string option"
  items :: "LineItem list"

text \<open>\<open>unit_price\<close> is a float, as the dataclass declares it, and \<open>qty\<close> an \<^verbatim>\<open>int\<close>.\<close>

text \<open>An \<^verbatim>\<open>inv\<close> parameter of the source is written \<open>invc\<close> below, and \<open>opt_inv\<close>
  where it may still be \<^verbatim>\<open>None\<close>.\<close>

text \<open>The exceptions the code can raise: the \<^verbatim>\<open>ValueError\<close> of \<^verbatim>\<open>compute_total\<close>,
  the \<^verbatim>\<open>OverflowError\<close> of multiplying a float by an \<^verbatim>\<open>int\<close> too large to convert, a
  \<^verbatim>\<open>KeyError\<close> of a dictionary subscript, and the \<^verbatim>\<open>AttributeError\<close> of reading a field
  of \<^verbatim>\<open>None\<close>.\<close>

datatype error = ValueError string | OverflowError | KeyError string | AttributeError

text \<open>The conversion of an \<^verbatim>\<open>int\<close> operand in \<^verbatim>\<open>float * int\<close>: the nearest double, or
  \<^verbatim>\<open>OverflowError\<close> (int too large to convert to float).\<close>

definition int_to_float :: "int \<Rightarrow> error + pyfloat" where
  "int_to_float n =
     (case round_to_double (of_int n) of
        Finite r \<Rightarrow> Inr (Finite r)
      | PosInf \<Rightarrow> Inl OverflowError
      | NegInf \<Rightarrow> Inl OverflowError
      | NaN \<Rightarrow> Inl OverflowError)"

subsection \<open>Configuration tables\<close>

text \<open>The thresholds and fees of the shipping tables are written as integers in the
  source; they are only compared (exactly) and added after an exact conversion, so they
  stand here as the floats they convert to.\<close>

definition COUPON_RATES :: "string \<rightharpoonup> pyfloat" where
  "COUPON_RATES = map_of
     [(''WELCOME10'', float_lit (10 / 100)),
      (''VIP20'', float_lit (20 / 100)),
      (''STUDENT5'', float_lit (5 / 100))]"

definition SHIPPING_CONFIG :: "string \<rightharpoonup> pyfloat \<times> pyfloat" where
  "SHIPPING_CONFIG = map_of
     [(''TH'', (Finite 500, Finite 60)),
      (''JP'', (Finite 4000, Finite 600)),
      (''US'', (Finite 100, Finite 15)),
      (''DEFAULT'', (Finite 200, Finite 25))]"

definition US_SHIPPING_TIERS :: "(pyfloat \<times> pyfloat) list" where
  "US_SHIPPING_TIERS = [(Finite 100, Finite 15), (Finite 300, Finite 8)]"

definition TAX_RATES :: "string \<rightharpoonup> pyfloat" where
  "TAX_RATES = map_of
     [(''TH'', float_lit (7 / 100)),
      (''JP'', float_lit (10 / 100)),
      (''US'', float_lit (8 / 100)),
      (''DEFAULT'', float_lit (5 / 100))]"

definition MEMBERSHIP_DISCOUNTS :: "string \<rightharpoonup> pyfloat" where
  "MEMBERSHIP_DISCOUNTS = map_of
     [(''gold'', float_lit (3 / 100)),
      (''platinum'', float_lit (5 / 100))]"

subsection \<open>Python built-ins the code uses\<close>

text \<open>\<^verbatim>\<open>d[k]\<close>: the value, or \<^verbatim>\<open>KeyError\<close>.\<close>

definition subscript :: "(string \<rightharpoonup> 'v) \<Rightarrow> string \<Rightarrow> error + 'v" where
  "subscript d k = (case d k of None \<Rightarrow> Inl (KeyError k) | Some v \<Rightarrow> Inr v)"

text \<open>\<^verbatim>\<open>d.get(k, default)\<close>.\<close>

definition dict_get :: "(string \<rightharpoonup> 'v) \<Rightarrow> string \<Rightarrow> 'v \<Rightarrow> 'v" where
  "dict_get d k dflt = (case d k of None \<Rightarrow> dflt | Some v \<Rightarrow> v)"

text \<open>\<^verbatim>\<open>sep.join(xs)\<close>.\<close>

fun join :: "string \<Rightarrow> string list \<Rightarrow> string" where
  "join sep [] = []"
| "join sep [x] = x"
| "join sep (x # y # ys) = x @ sep @ join sep (y # ys)"

text \<open>\<^verbatim>\<open>str.isspace\<close> on one character, for the code points below 256:
  tab to carriage return, the four separators \<^verbatim>\<open>\x1c\<close> to \<^verbatim>\<open>\x1f\<close>, the space,
  \<^verbatim>\<open>\x85\<close> and \<^verbatim>\<open>\xa0\<close>.\<close>

definition is_space :: "char \<Rightarrow> bool" where
  "is_space c = ((of_char c :: nat) \<in> set [9, 10, 11, 12, 13, 28, 29, 30, 31, 32, 133, 160])"

text \<open>\<^verbatim>\<open>s.strip()\<close>: whitespace removed at both ends.\<close>

definition strip :: "string \<Rightarrow> string" where
  "strip s = rev (dropWhile is_space (rev (dropWhile is_space s)))"

subsection \<open>\<^verbatim>\<open>_validate\<close>\<close>

text \<open>The four checks of the loop body on one item, appending to \<open>problems\<close>.\<close>

definition validate_item :: "LineItem \<Rightarrow> string list \<Rightarrow> string list" where
  "validate_item it problems =
     (let problems = (if sku it = [] then problems @ [''Item sku is missing''] else problems);
          problems = (if qty it \<le> 0 then problems @ [''Invalid qty for '' @ sku it] else problems);
          problems = (if flt (unit_price it) (Finite 0)
                      then problems @ [''Invalid price for '' @ sku it] else problems);
          problems = (if category it \<notin> set [''book'', ''food'', ''electronics'', ''other'']
                      then problems @ [''Unknown category for '' @ sku it] else problems)
      in problems)"

text \<open>\<^verbatim>\<open>for it in inv.items\<close>.\<close>

fun validate_items :: "LineItem list \<Rightarrow> string list \<Rightarrow> string list" where
  "validate_items [] problems = problems"
| "validate_items (it # rest) problems = validate_items rest (validate_item it problems)"

definition validate :: "Invoice option \<Rightarrow> string list" where
  "validate opt_inv =
     (let problems = [] in
      case opt_inv of
        None \<Rightarrow> problems @ [''Invoice is missing'']
      | Some invc \<Rightarrow>
          (let problems = (if invoice_id invc = [] then problems @ [''Missing invoice_id''] else problems);
               problems = (if customer_id invc = [] then problems @ [''Missing customer_id''] else problems);
               problems = (if items invc = [] then problems @ [''Invoice must contain items''] else problems)
           in validate_items (items invc) problems))"

subsection \<open>\<^verbatim>\<open>_calculate_subtotal_and_fragile_fee\<close>\<close>

text \<open>The loop, with both products of its body: \<^verbatim>\<open>it.unit_price * it.qty\<close> and
  \<^verbatim>\<open>5.0 * it.qty\<close> each convert the quantity, and either conversion can raise.\<close>

fun subtotal_loop :: "LineItem list \<Rightarrow> pyfloat \<times> pyfloat \<Rightarrow> error + (pyfloat \<times> pyfloat)" where
  "subtotal_loop [] (subtotal, fragile_fee) = Inr (subtotal, fragile_fee)"
| "subtotal_loop (it # rest) (subtotal, fragile_fee) =
     (case int_to_float (qty it) of
        Inl e \<Rightarrow> Inl e
      | Inr q \<Rightarrow>
          (let subtotal = fadd subtotal (fmul (unit_price it) q) in
           if fragile it
           then (case int_to_float (qty it) of
                   Inl e \<Rightarrow> Inl e
                 | Inr q \<Rightarrow>
                     subtotal_loop rest (subtotal, fadd fragile_fee (fmul (Finite 5) q)))
           else subtotal_loop rest (subtotal, fragile_fee)))"

definition calculate_subtotal_and_fragile_fee :: "LineItem list \<Rightarrow> error + (pyfloat \<times> pyfloat)" where
  "calculate_subtotal_and_fragile_fee its = subtotal_loop its (Finite 0, Finite 0)"

subsection \<open>\<^verbatim>\<open>_calculate_shipping\<close>\<close>

text \<open>The loop over the US tiers: the first tier whose threshold is above the subtotal
  returns its fee; falling off the end returns \<open>0.0\<close>.\<close>

fun scan_tiers :: "(pyfloat \<times> pyfloat) list \<Rightarrow> pyfloat \<Rightarrow> pyfloat" where
  "scan_tiers [] subtotal = Finite 0"
| "scan_tiers ((threshold, fee) # rest) subtotal =
     (if flt subtotal threshold then fee else scan_tiers rest subtotal)"

definition calculate_shipping :: "string \<Rightarrow> pyfloat \<Rightarrow> error + pyfloat" where
  "calculate_shipping cntry subtotal =
     (if cntry = ''US'' then Inr (scan_tiers US_SHIPPING_TIERS subtotal)
      else
        (case subscript SHIPPING_CONFIG ''DEFAULT'' of
           Inl e \<Rightarrow> Inl e
         | Inr dflt \<Rightarrow>
             (let config = dict_get SHIPPING_CONFIG cntry dflt;
                  threshold = fst config;
                  fee = snd config
              in Inr (if flt subtotal threshold then fee else Finite 0))))"

subsection \<open>\<^verbatim>\<open>_calculate_discount\<close>\<close>

text \<open>Returns the discount and the warnings list as the call leaves it.\<close>

definition calculate_discount :: "Invoice \<Rightarrow> pyfloat \<Rightarrow> string list \<Rightarrow> error + (pyfloat \<times> string list)" where
  "calculate_discount invc subtotal warnings =
     (let discount = Finite 0 in
      case (if membership invc \<in> dom MEMBERSHIP_DISCOUNTS
            then (case subscript MEMBERSHIP_DISCOUNTS (membership invc) of
                    Inl e \<Rightarrow> Inl e
                  | Inr rate \<Rightarrow> Inr (fadd discount (fmul subtotal rate)))
            else if flt (Finite 3000) subtotal then Inr (fadd discount (Finite 20))
            else Inr discount) of
        Inl e \<Rightarrow> Inl e
      | Inr discount \<Rightarrow>
          (case coupon invc of
             None \<Rightarrow> Inr (discount, warnings)
           | Some c \<Rightarrow>
               if c = [] then Inr (discount, warnings)
               else
                 (let code = strip c in
                  if code \<in> dom COUPON_RATES
                  then (case subscript COUPON_RATES code of
                          Inl e \<Rightarrow> Inl e
                        | Inr rate \<Rightarrow> Inr (fadd discount (fmul subtotal rate), warnings))
                  else Inr (discount, warnings @ [''Unknown coupon'']))))"

subsection \<open>\<^verbatim>\<open>_calculate_tax\<close>\<close>

definition calculate_tax :: "string \<Rightarrow> pyfloat \<Rightarrow> error + pyfloat" where
  "calculate_tax cntry taxable_amount =
     (case subscript TAX_RATES ''DEFAULT'' of
        Inl e \<Rightarrow> Inl e
      | Inr dflt \<Rightarrow>
          (let rate = dict_get TAX_RATES cntry dflt
           in Inr (fmul taxable_amount rate)))"

subsection \<open>\<^verbatim>\<open>compute_total\<close>\<close>

definition compute_total :: "Invoice option \<Rightarrow> error + (pyfloat \<times> string list)" where
  "compute_total opt_inv =
     (let warnings = [];
          problems = validate opt_inv
      in if problems \<noteq> [] then Inl (ValueError (join ''; '' problems))
         else
           (case opt_inv of
              None \<Rightarrow> Inl AttributeError
            | Some invc \<Rightarrow>
                (case calculate_subtotal_and_fragile_fee (items invc) of
                   Inl e \<Rightarrow> Inl e
                 | Inr (subtotal, fragile_fee) \<Rightarrow>
                (case calculate_shipping (country invc) subtotal of
                   Inl e \<Rightarrow> Inl e
                 | Inr shipping \<Rightarrow>
                (case calculate_discount invc subtotal warnings of
                   Inl e \<Rightarrow> Inl e
                 | Inr (discount, warnings) \<Rightarrow>
                (case calculate_tax (country invc) (fsub subtotal discount) of
                   Inl e \<Rightarrow> Inl e
                 | Inr tax \<Rightarrow>
                     (let total = py_max (Finite 0)
                            (fsub (fadd (fadd (fadd subtotal shipping) fragile_fee) tax) discount);
                          warnings = (if flt (Finite 10000) subtotal
                                         \<and> membership invc \<notin> set [''gold'', ''platinum'']
                                      then warnings @ [''Consider membership upgrade'']
                                      else warnings)
                      in Inr (total, warnings))))))))"

subsection \<open>\<^verbatim>\<open>compute_total\<close> with its helper calls recorded\<close>

text \<open>The same body as \<open>compute_total\<close>, returning in addition the helper methods it has
  called, in call order, so that a statement can say which ones were never reached.\<close>

datatype call =
    Call_validate
  | Call_calculate_subtotal_and_fragile_fee
  | Call_calculate_shipping
  | Call_calculate_discount
  | Call_calculate_tax

definition compute_total_calls :: "Invoice option \<Rightarrow> call list \<times> (error + (pyfloat \<times> string list))" where
  "compute_total_calls opt_inv =
     (let warnings = [];
          problems = validate opt_inv;
          calls = [Call_validate]
      in if problems \<noteq> [] then (calls, Inl (ValueError (join ''; '' problems)))
         else
           (case opt_inv of
              None \<Rightarrow> (calls, Inl AttributeError)
            | Some invc \<Rightarrow>
                (let calls = calls @ [Call_calculate_subtotal_and_fragile_fee] in
                (case calculate_subtotal_and_fragile_fee (items invc) of
                   Inl e \<Rightarrow> (calls, Inl e)
                 | Inr (subtotal, fragile_fee) \<Rightarrow>
                (let calls = calls @ [Call_calculate_shipping] in
                (case calculate_shipping (country invc) subtotal of
                   Inl e \<Rightarrow> (calls, Inl e)
                 | Inr shipping \<Rightarrow>
                (let calls = calls @ [Call_calculate_discount] in
                (case calculate_discount invc subtotal warnings of
                   Inl e \<Rightarrow> (calls, Inl e)
                 | Inr (discount, warnings) \<Rightarrow>
                (let calls = calls @ [Call_calculate_tax] in
                (case calculate_tax (country invc) (fsub subtotal discount) of
                   Inl e \<Rightarrow> (calls, Inl e)
                 | Inr tax \<Rightarrow>
                     (let total = py_max (Finite 0)
                            (fsub (fadd (fadd (fadd subtotal shipping) fragile_fee) tax) discount);
                          warnings = (if flt (Finite 10000) subtotal
                                         \<and> membership invc \<notin> set [''gold'', ''platinum'']
                                      then warnings @ [''Consider membership upgrade'']
                                      else warnings)
                      in (calls, Inr (total, warnings)))))))))))))"

subsection \<open>The quantities of the specification\<close>

text \<open>Whether the quantity of an item converts to a float, the float it converts to, and
  the bound below which a positive quantity converts: the smallest integer that does not
  is \<open>2\<^sup>1\<^sup>0\<^sup>2\<^sup>4 - 2\<^sup>9\<^sup>7\<^sup>0\<close>, halfway between the largest double and \<open>2\<^sup>1\<^sup>0\<^sup>2\<^sup>4\<close>.\<close>

definition qty_converts :: "LineItem \<Rightarrow> bool" where
  "qty_converts it = (case int_to_float (qty it) of Inr q \<Rightarrow> True | Inl e \<Rightarrow> False)"

definition qty_fits :: "LineItem \<Rightarrow> bool" where
  "qty_fits it = (qty it < 2 ^ 1024 - 2 ^ 970)"

definition float_of_qty :: "LineItem \<Rightarrow> pyfloat" where
  "float_of_qty it = round_to_double (of_int (qty it))"

text \<open>The subtotal and the fragile fee as the specification writes them: the sums of
  \<open>unit_price \<times> qty\<close> over all items and of \<open>5.0 \<times> qty\<close> over the fragile ones,
  accumulated in floating point in list order from \<open>0.0\<close>.\<close>

definition spec_subtotal :: "LineItem list \<Rightarrow> pyfloat" where
  "spec_subtotal its =
     foldl (\<lambda>subtotal it. fadd subtotal (fmul (unit_price it) (float_of_qty it))) (Finite 0) its"

definition spec_fragile_fee :: "LineItem list \<Rightarrow> pyfloat" where
  "spec_fragile_fee its =
     foldl (\<lambda>fee it. fadd fee (fmul (Finite 5) (float_of_qty it))) (Finite 0) (filter fragile its)"


text \<open>The tax rate of a country, with the \<^verbatim>\<open>DEFAULT\<close> rate for a country not in the table.\<close>

definition spec_tax_rate :: "string \<Rightarrow> pyfloat" where
  "spec_tax_rate cntry = (case TAX_RATES cntry of Some rate \<Rightarrow> rate | None \<Rightarrow> float_lit (5 / 100))"

text \<open>The shipping fee: the first matching US tier, or the fee of the country's entry
  (the \<^verbatim>\<open>DEFAULT\<close> entry for a country not in the table) below its threshold.\<close>

definition spec_shipping :: "string \<Rightarrow> pyfloat \<Rightarrow> pyfloat" where
  "spec_shipping cntry subtotal =
     (if cntry = ''US''
      then (case find (\<lambda>(threshold, fee). flt subtotal threshold)
                   [(Finite 100, Finite 15), (Finite 300, Finite 8)] of
              Some (threshold, fee) \<Rightarrow> fee
            | None \<Rightarrow> Finite 0)
      else (case (case SHIPPING_CONFIG cntry of Some entry \<Rightarrow> entry
                  | None \<Rightarrow> (Finite 200, Finite 25)) of
              (threshold, fee) \<Rightarrow> if flt subtotal threshold then fee else Finite 0))"

text \<open>The membership part of the discount: the member's rate times the subtotal, else
  the flat 20 above 3000.\<close>

definition spec_membership_discount :: "Invoice \<Rightarrow> pyfloat \<Rightarrow> pyfloat" where
  "spec_membership_discount invc subtotal =
     (case MEMBERSHIP_DISCOUNTS (membership invc) of
        Some rate \<Rightarrow> fmul subtotal rate
      | None \<Rightarrow> if flt (Finite 3000) subtotal then Finite 20 else Finite 0)"

text \<open>The amount a coupon adds, if it adds one, the discount after the coupon step, and
  the warning for a coupon not in the table. A coupon that is \<^verbatim>\<open>None\<close> or the empty
  string is skipped by \<^verbatim>\<open>if inv.coupon\<close>.\<close>

definition spec_coupon_term :: "Invoice \<Rightarrow> pyfloat \<Rightarrow> pyfloat option" where
  "spec_coupon_term invc subtotal =
     (case coupon invc of
        None \<Rightarrow> None
      | Some c \<Rightarrow>
          if c = [] then None
          else (case COUPON_RATES (strip c) of Some rate \<Rightarrow> Some (fmul subtotal rate) | None \<Rightarrow> None))"

definition spec_discount :: "Invoice \<Rightarrow> pyfloat \<Rightarrow> pyfloat" where
  "spec_discount invc subtotal =
     (case spec_coupon_term invc subtotal of
        None \<Rightarrow> spec_membership_discount invc subtotal
      | Some amount \<Rightarrow> fadd (spec_membership_discount invc subtotal) amount)"

definition spec_coupon_warning :: "Invoice \<Rightarrow> string list" where
  "spec_coupon_warning invc =
     (case coupon invc of
        None \<Rightarrow> []
      | Some c \<Rightarrow> if c \<noteq> [] \<and> COUPON_RATES (strip c) = None then [''Unknown coupon''] else [])"

text \<open>The upgrade warning, on the subtotal before any discount.\<close>

definition spec_upgrade_warning :: "Invoice \<Rightarrow> string list" where
  "spec_upgrade_warning invc =
     (if flt (Finite 10000) (spec_subtotal (items invc))
         \<and> membership invc \<noteq> ''gold'' \<and> membership invc \<noteq> ''platinum''
      then [''Consider membership upgrade''] else [])"

text \<open>The problems \<^verbatim>\<open>_validate\<close> reports before its loop over the items.\<close>

definition header_problems :: "Invoice \<Rightarrow> string list" where
  "header_problems invc =
     (if invoice_id invc = [] then [''Missing invoice_id''] else [])
     @ (if customer_id invc = [] then [''Missing customer_id''] else [])
     @ (if items invc = [] then [''Invoice must contain items''] else [])"

subsection \<open>Example invoices\<close>

text \<open>The invoice of the end-to-end scenario, with identifiers filled in, and variations
  of it: a quantity too large for a float, the same for a \<open>Gold\<close> customer, an empty coupon
  string, a known coupon with surrounding blanks, an unknown coupon, a gold member, two
  items with bad quantities, an invoice without id and items, a large order by a \<open>Gold\<close>
  (capital G) customer with an unknown coupon, and two prices whose exact sum is above
  10000 while their float sum is 10000.0.\<close>

definition scenario_invoice :: Invoice where
  "scenario_invoice =
     \<lparr>invoice_id = ''INV-1'', customer_id = ''CUST-1'', country = ''TH'', membership = [],
      coupon = None,
      items = [\<lparr>sku = ''SKU-1'', category = ''other'', unit_price = Finite 1000, qty = 5,
                fragile = False\<rparr>]\<rparr>"

definition huge_qty_invoice :: Invoice where
  "huge_qty_invoice = scenario_invoice\<lparr>items :=
     [\<lparr>sku = ''SKU-1'', category = ''other'', unit_price = Finite 1, qty = 10 ^ 400,
       fragile = False\<rparr>]\<rparr>"


definition empty_coupon_invoice :: Invoice where
  "empty_coupon_invoice = scenario_invoice\<lparr>coupon := Some []\<rparr>"

definition padded_coupon_invoice :: Invoice where
  "padded_coupon_invoice = scenario_invoice\<lparr>coupon := Some '' WELCOME10 ''\<rparr>"

definition bogus_coupon_invoice :: Invoice where
  "bogus_coupon_invoice = scenario_invoice\<lparr>coupon := Some ''BOGUS''\<rparr>"

definition gold_invoice :: Invoice where
  "gold_invoice = scenario_invoice\<lparr>membership := ''gold''\<rparr>"

definition two_bad_qty_invoice :: Invoice where
  "two_bad_qty_invoice = scenario_invoice\<lparr>items :=
     [\<lparr>sku = ''A'', category = ''book'', unit_price = Finite 1, qty = 0, fragile = False\<rparr>,
      \<lparr>sku = ''B'', category = ''food'', unit_price = Finite 2, qty = - 1, fragile = True\<rparr>]\<rparr>"

definition empty_invoice :: Invoice where
  "empty_invoice = scenario_invoice\<lparr>invoice_id := [], items := []\<rparr>"

definition big_bogus_invoice :: Invoice where
  "big_bogus_invoice = \<lparr>invoice_id = ''INV-2'', customer_id = ''CUST-2'', country = ''JP'',
      membership = ''Gold'', coupon = Some ''BOGUS'',
      items = [\<lparr>sku = ''SKU-2'', category = ''electronics'', unit_price = Finite 3000, qty = 5,
                fragile = True\<rparr>]\<rparr>"

definition rounding_invoice :: Invoice where
  "rounding_invoice = scenario_invoice\<lparr>items :=
     [\<lparr>sku = ''A'', category = ''book'', unit_price = Finite 10000, qty = 1, fragile = False\<rparr>,
      \<lparr>sku = ''B'', category = ''book'', unit_price = Finite (1 / 2 ^ 60), qty = 1,
       fragile = False\<rparr>]\<rparr>"

section \<open>Properties\<close>

subsection \<open>Rounding\<close>

text \<open>\<open>ilog2\<close> is the binary exponent, rounding leaves a rounded value unchanged, and so
  adding a product to \<open>0.0\<close> gives the product.\<close>

lemma pow2_powi: "pow2 k = 2 powi k"
  by (simp add: pow2_def power_int_def field_simps)

lemma pow2_pos: "0 < pow2 k"
  by (simp add: pow2_powi)

lemma pow2_add: "pow2 (a + b) = pow2 a * pow2 b"
  by (simp add: pow2_powi power_int_add)

lemma pow2_mono: "a \<le> b \<Longrightarrow> pow2 a \<le> pow2 b"
  by (simp add: pow2_powi power_int_increasing)

lemma pow2_strict_mono: "a < b \<Longrightarrow> pow2 a < pow2 b"
  by (simp add: pow2_powi power_int_strict_increasing)

lemma ilog2_bounds:
  assumes "0 < x"
  shows "pow2 (ilog2 x) \<le> x \<and> x < pow2 (ilog2 x + 1)"
proof (cases "1 \<le> x")
  case True
  define n where "n = \<lfloor>x\<rfloor>"
  have n1: "1 \<le> n" using True by (simp add: n_def)
  then have b: "2 ^ nat (bitlen n - 1) \<le> n \<and> n < 2 ^ nat (bitlen n)"
    using bitlen_bounds [of n] by simp
  have bl: "1 \<le> bitlen n" using n1 by (simp add: bitlen_ge_iff_power)
  have il: "ilog2 x = bitlen n - 1" using True by (simp add: ilog2_def n_def)
  have "pow2 (bitlen n - 1) = 2 ^ nat (bitlen n - 1)" using bl by (simp add: pow2_def)
  also have "\<dots> \<le> of_int n" using b by (metis of_int_le_iff of_int_numeral of_int_power)
  also have "\<dots> \<le> x" by (simp add: n_def)
  finally have lo: "pow2 (ilog2 x) \<le> x" by (simp add: il)
  have "n + 1 \<le> 2 ^ nat (bitlen n)" using b by simp
  then have "(of_int (n + 1) :: rat) \<le> 2 ^ nat (bitlen n)"
    by (metis of_int_le_iff of_int_numeral of_int_power)
  moreover have "x < of_int (n + 1)" unfolding n_def by linarith
  moreover have "pow2 (bitlen n) = 2 ^ nat (bitlen n)" using bl by (simp add: pow2_def)
  ultimately have "x < pow2 (bitlen n)" by linarith
  then have hi: "x < pow2 (ilog2 x + 1)" by (simp add: il)
  from lo hi show ?thesis by simp
next
  case False
  define y where "y = 1 / x"
  define c where "c = \<lceil>y\<rceil>"
  define j where "j = bitlen (c - 1)"
  have y1: "1 < y" using False assms by (simp add: y_def)
  have c2: "2 \<le> c" using y1 by (simp add: c_def)
  then have b: "2 ^ nat (j - 1) \<le> c - 1 \<and> c - 1 < 2 ^ nat j"
    using bitlen_bounds [of "c - 1"] by (simp add: j_def)
  have j1: "1 \<le> j" using c2 by (simp add: j_def bitlen_ge_iff_power)
  have il: "ilog2 x = - j" using False by (simp add: ilog2_def j_def c_def y_def)
  have "c \<le> 2 ^ nat j" using b by simp
  then have "(of_int c :: rat) \<le> 2 ^ nat j" by (metis of_int_le_iff of_int_numeral of_int_power)
  moreover have "y \<le> of_int c" by (simp add: c_def)
  ultimately have "y \<le> 2 ^ nat j" by linarith
  then have "1 / 2 ^ nat j \<le> x" using assms by (simp add: y_def field_simps)
  moreover have "pow2 (- j) = 1 / 2 ^ nat j" using j1 by (simp add: pow2_def)
  ultimately have lo: "pow2 (ilog2 x) \<le> x" by (simp add: il)
  have "(2 :: rat) ^ nat (j - 1) \<le> of_int (c - 1)"
    using b by (metis of_int_le_iff of_int_numeral of_int_power)
  moreover have "of_int (c - 1) < y" by (simp add: c_def) linarith
  ultimately have "2 ^ nat (j - 1) < y" by linarith
  then have "x < 1 / 2 ^ nat (j - 1)" using assms by (simp add: y_def field_simps)
  moreover have "pow2 (- j + 1) = 1 / 2 ^ nat (j - 1)"
    using j1 by (cases "j = 1") (simp_all add: pow2_def)
  ultimately have hi: "x < pow2 (ilog2 x + 1)" by (simp add: il)
  from lo hi show ?thesis by simp
qed

lemma ilog2_unique:
  assumes "0 < x" and "pow2 k \<le> x" and "x < pow2 (k + 1)"
  shows "ilog2 x = k"
proof (rule ccontr)
  assume ne: "ilog2 x \<noteq> k"
  note b = ilog2_bounds [OF assms(1)]
  show False
  proof (cases "ilog2 x < k")
    case True
    then have "pow2 (ilog2 x + 1) \<le> pow2 k" by (simp add: pow2_mono)
    with b assms show False by linarith
  next
    case False
    with ne have "k + 1 \<le> ilog2 x" by simp
    then have "pow2 (k + 1) \<le> pow2 (ilog2 x)" by (simp add: pow2_mono)
    with b assms show False by linarith
  qed
qed

lemma round_half_even_of_int: "round_half_even (of_int n) = n"
  by (simp add: round_half_even_def)

lemma round_half_even_ge: "of_int lo \<le> x \<Longrightarrow> lo \<le> round_half_even x"
proof -
  assume "of_int lo \<le> x"
  then have "lo \<le> \<lfloor>x\<rfloor>" by (simp add: le_floor_iff)
  then show ?thesis by (simp add: round_half_even_def Let_def)
qed

lemma round_half_even_le: "x \<le> of_int hi \<Longrightarrow> round_half_even x \<le> hi"
proof -
  assume a: "x \<le> of_int hi"
  show ?thesis
  proof (cases "x = of_int hi")
    case True
    then show ?thesis by (simp add: round_half_even_of_int)
  next
    case False
    with a have "x < of_int hi" by simp
    then have "\<lfloor>x\<rfloor> < hi" by (simp add: floor_less_iff)
    then show ?thesis by (simp add: round_half_even_def Let_def)
  qed
qed

lemma round_to_double_minus: "round_to_double (- x) = fneg (round_to_double x)"
  by (cases "x = 0"; cases "0 < x") (auto simp: round_to_double_def Let_def)

lemma round_to_double_exactI:
  assumes "0 < r" and "max (ilog2 r) (- 1022) = e" and "e < 1024"
    and "r / pow2 (e - 52) = of_int m" and "m < 2 ^ 53"
  shows "round_to_double r = Finite r"
proof -
  have ar: "\<bar>r\<bar> = r" "r \<noteq> 0" using assms(1) by simp_all
  have v: "of_int m * pow2 (e - 52) = r"
    using assms(4) pow2_pos [of "e - 52"] by (simp add: field_simps)
  have "round_to_double r = Finite (of_int (round_half_even (of_int m)) * pow2 (e - 52))"
    using assms(1,3,5)
    by (simp add: round_to_double_def Let_def ar assms(2) assms(4) round_half_even_of_int
        del: of_int_mult)
  then show ?thesis by (simp only: round_half_even_of_int v)
qed

lemma round_to_double_idem_pos:
  assumes x: "0 < x" and r: "round_to_double x = Finite r"
  shows "round_to_double r = Finite r"
proof -
  define e where "e = max (ilog2 x) (- 1022)"
  define ulp where "ulp = pow2 (e - 52)"
  define m where "m = round_half_even (x / ulp)"
  have ax: "\<bar>x\<bar> = x" "x \<noteq> 0" using x by simp_all
  have e_lt: "e < 1024" and no: "\<not> (e = 1023 \<and> m = 2 ^ 53)" and r_eq: "r = of_int m * ulp"
    using r x
    by (auto simp: round_to_double_def Let_def ax e_def ulp_def m_def split: if_splits)
  have e_ge: "- 1022 \<le> e" by (simp add: e_def)
  have ulp_pos: "0 < ulp" by (simp add: ulp_def pow2_pos)
  define e1 where "e1 = e + 1"
  have "pow2 e1 = pow2 (e - 52 + 53)" unfolding e1_def by (rule arg_cong [where f = pow2]) simp
  also have "\<dots> = pow2 (e - 52) * pow2 53" by (rule pow2_add)
  finally have p53: "pow2 e1 = 2 ^ 53 * ulp" by (simp add: ulp_def pow2_def)
  have "pow2 e = pow2 (e - 52 + 52)" by (rule arg_cong [where f = pow2]) simp
  also have "\<dots> = pow2 (e - 52) * pow2 52" by (rule pow2_add)
  finally have p52: "pow2 e = 2 ^ 52 * ulp" by (simp add: ulp_def pow2_def)
  note b = ilog2_bounds [OF x]
  have "x < pow2 e1"
  proof -
    have "pow2 (ilog2 x + 1) \<le> pow2 e1" by (rule pow2_mono) (simp add: e_def e1_def)
    with b show ?thesis by linarith
  qed
  then have "x < 2 ^ 53 * ulp" unfolding p53 .
  then have "x / ulp < 2 ^ 53" using ulp_pos by (simp add: field_simps)
  then have "x / ulp \<le> of_int (2 ^ 53)" by simp
  then have m_le: "m \<le> 2 ^ 53" unfolding m_def by (rule round_half_even_le)
  have "of_int 0 \<le> x / ulp" using x ulp_pos by simp
  then have m_ge: "0 \<le> m" unfolding m_def by (rule round_half_even_ge)
  show ?thesis
  proof (cases "m = 0")
    case True
    then show ?thesis by (simp add: r_eq round_to_double_def)
  next
    case False
    with m_ge have m_pos: "0 < m" by simp
    then have r_pos: "0 < r" using ulp_pos by (simp add: r_eq)
    then have ar: "\<bar>r\<bar> = r" "r \<noteq> 0" by simp_all
    consider (top) "m = 2 ^ 53" | (normal) "2 ^ 52 \<le> m" "m < 2 ^ 53" | (sub) "m < 2 ^ 52"
      using m_le by linarith
    then show ?thesis
    proof cases
      case top
      with no e_lt have e1_lt: "e1 < 1024" by (simp add: e1_def)
      have e1_ge: "- 1022 \<le> e1" using e_ge by (simp add: e1_def)
      have rp: "r = pow2 e1" unfolding p53 by (simp add: r_eq top)
      have "pow2 e1 < pow2 (e1 + 1)" by (rule pow2_strict_mono) simp
      then have "ilog2 r = e1" using r_pos by (intro ilog2_unique) (simp_all add: rp)
      then have e': "max (ilog2 r) (- 1022) = e1" using e1_ge by simp
      have "pow2 e1 = pow2 (e1 - 52 + 52)" by (rule arg_cong [where f = pow2]) simp
      also have "\<dots> = pow2 (e1 - 52) * pow2 52" by (rule pow2_add)
      finally have p: "pow2 e1 = of_int (2 ^ 52) * pow2 (e1 - 52)" by (simp add: pow2_def)
      then have q: "r / pow2 (e1 - 52) = of_int (2 ^ 52)"
        using pow2_pos [of "e1 - 52"] unfolding rp by (simp add: field_simps)
      show ?thesis
        by (rule round_to_double_exactI [OF r_pos e' e1_lt q]) simp
    next
      case normal
      have "pow2 e \<le> r"
        using normal(1) ulp_pos by (simp add: r_eq p52 mult_right_mono)
      moreover have "r < pow2 (e + 1)"
        using normal(2) ulp_pos unfolding e1_def [symmetric] p53
        by (simp add: r_eq)
      ultimately have "ilog2 r = e" using r_pos by (intro ilog2_unique)
      then have e': "max (ilog2 r) (- 1022) = e" using e_ge by simp
      have q: "r / pow2 (e - 52) = of_int m" using ulp_pos by (simp add: r_eq ulp_def)
      show ?thesis
        by (rule round_to_double_exactI [OF r_pos e' e_lt q normal(2)])
    next
      case sub
      have r_lt: "r < pow2 e"
        using sub ulp_pos by (simp add: r_eq p52)
      have e_eq: "e = - 1022"
      proof (rule ccontr)
        assume "e \<noteq> - 1022"
        then have "e = ilog2 x" by (simp add: e_def max_def split: if_splits)
        with b have "pow2 e \<le> x" by simp
        then have "of_int (2 ^ 52) \<le> x / ulp" using ulp_pos by (simp add: p52 field_simps)
        then have "2 ^ 52 \<le> m" unfolding m_def by (rule round_half_even_ge)
        with sub show False by simp
      qed
      have "ilog2 r < e"
      proof (rule ccontr)
        assume "\<not> ilog2 r < e"
        then have "pow2 e \<le> pow2 (ilog2 r)" by (simp add: pow2_mono)
        with ilog2_bounds [OF r_pos] r_lt show False by linarith
      qed
      then have e': "max (ilog2 r) (- 1022) = e" using e_eq by simp
      have q: "r / pow2 (e - 52) = of_int m" using ulp_pos by (simp add: r_eq ulp_def)
      have "m < 2 ^ 53" using sub by simp
      then show ?thesis
        by (rule round_to_double_exactI [OF r_pos e' e_lt q])
    qed
  qed
qed

lemma round_to_double_idem:
  assumes "round_to_double x = Finite r"
  shows "round_to_double r = Finite r"
proof -
  consider (zero) "x = 0" | (pos) "0 < x" | (neg) "x < 0" by linarith
  then show ?thesis
  proof cases
    case zero
    with assms show ?thesis by (simp add: round_to_double_def)
  next
    case pos
    then show ?thesis using assms by (rule round_to_double_idem_pos)
  next
    case neg
    then have p: "0 < - x" by simp
    have "round_to_double (- x) = Finite (- r)"
      using assms by (simp add: round_to_double_minus)
    with p have "round_to_double (- r) = Finite (- r)" by (rule round_to_double_idem_pos)
    then have "fneg (round_to_double r) = Finite (- r)" by (simp add: round_to_double_minus)
    then show ?thesis by (cases "round_to_double r") simp_all
  qed
qed

lemma is_double_round_to_double: "is_double (round_to_double x)"
  by (cases "round_to_double x") (simp_all add: round_to_double_idem)

lemma is_double_fmul: "is_double (fmul a b)"
  by (cases a; cases b) (simp_all add: is_double_round_to_double inf_times_def)

lemma is_double_fadd: "is_double (fadd a b)"
  by (cases a; cases b) (simp_all add: is_double_round_to_double)

lemma fadd_zero_left: "is_double y \<Longrightarrow> fadd (Finite 0) y = y"
  by (cases y) simp_all

lemma fadd_zero_fmul: "fadd (Finite 0) (fmul a b) = fmul a b"
  by (rule fadd_zero_left) (rule is_double_fmul)

text \<open>The conversion of a quantity: exact below \<open>2\<^sup>5\<^sup>3\<close>, and an \<^verbatim>\<open>OverflowError\<close>
  exactly from \<open>2\<^sup>1\<^sup>0\<^sup>2\<^sup>4 - 2\<^sup>9\<^sup>7\<^sup>0\<close> on.\<close>

lemma int_to_float_exact:
  assumes "0 < n" and "n < 2 ^ 53"
  shows "int_to_float n = Inr (Finite (of_int n))"
proof -
  define e where "e = bitlen n - 1"
  have n1: "1 \<le> n" using assms by simp
  have il: "ilog2 (of_int n) = e" using n1 by (simp add: ilog2_def e_def)
  have "bitlen n \<le> 53" using assms by (simp add: bitlen_le_iff_power)
  then have e52: "e \<le> 52" by (simp add: e_def)
  have "1 \<le> bitlen n" using n1 by (simp add: bitlen_ge_iff_power)
  then have e0: "0 \<le> e" by (simp add: e_def)
  have b: "n < 2 ^ nat (bitlen n)" using bitlen_bounds [of n] assms by simp
  define k where "k = nat (52 - e)"
  have pk: "pow2 (e - 52) = 1 / 2 ^ k"
    using e52 by (cases "e = 52") (simp_all add: pow2_def k_def)
  have q: "of_int n / pow2 (e - 52) = (of_int (n * 2 ^ k) :: rat)" by (simp add: pk)
  have "nat (bitlen n) + k = 53" using e52 e0 by (simp add: k_def e_def)
  then have "(2 :: int) ^ nat (bitlen n) * 2 ^ k = 2 ^ 53" by (metis power_add)
  moreover have "n * 2 ^ k < 2 ^ nat (bitlen n) * 2 ^ k" using b by simp
  ultimately have m: "n * 2 ^ k < 2 ^ 53" by simp
  have e': "max (ilog2 (of_int n)) (- 1022) = e" using il e0 by simp
  have "round_to_double (of_int n) = Finite (of_int n)"
    by (rule round_to_double_exactI [OF _ e' _ q m]) (use assms e52 in simp_all)
  then show ?thesis by (simp add: int_to_float_def)
qed

lemma int_to_float_too_large:
  assumes "2 ^ 1024 \<le> n"
  shows "int_to_float n = Inl OverflowError"
proof -
  have "(1 :: int) \<le> 2 ^ 1024" by simp
  then have pos: "1 \<le> n" using assms by linarith
  have "1025 \<le> bitlen n"
    using assms by (simp add: bitlen_ge_iff_power)
  then have "1024 \<le> ilog2 (of_int n)"
    using pos by (simp add: ilog2_def)
  moreover have "\<bar>of_int n :: rat\<bar> = of_int n" "(of_int n :: rat) \<noteq> 0" "0 < (of_int n :: rat)"
    using pos by simp_all
  ultimately have "round_to_double (of_int n) = PosInf"
    by (simp add: round_to_double_def Let_def max_def)
  then show ?thesis by (simp add: int_to_float_def)
qed

lemma round_half_even_top:
  assumes "x < 2 ^ 53"
  shows "round_half_even x = 2 ^ 53 \<longleftrightarrow> 2 ^ 53 - 1 / 2 \<le> x"
proof
  assume r: "round_half_even x = 2 ^ 53"
  show "2 ^ 53 - 1 / 2 \<le> x"
  proof (rule ccontr)
    assume "\<not> 2 ^ 53 - 1 / 2 \<le> x"
    then have lt: "x < 2 ^ 53 - 1 / 2" by simp
    have fl: "\<lfloor>x\<rfloor> \<le> 2 ^ 53 - 1" using assms by (simp add: floor_le_iff)
    show False
    proof (cases "\<lfloor>x\<rfloor> = 2 ^ 53 - 1")
      case True
      then have "x - of_int \<lfloor>x\<rfloor> < 1 / 2" using lt by simp
      then have "round_half_even x = \<lfloor>x\<rfloor>" by (simp add: round_half_even_def Let_def)
      with r True show False by simp
    next
      case False
      with fl have "\<lfloor>x\<rfloor> + 1 \<le> 2 ^ 53 - 1" by linarith
      moreover have "round_half_even x \<le> \<lfloor>x\<rfloor> + 1" by (simp add: round_half_even_def Let_def)
      ultimately show False using r by simp
    qed
  qed
next
  assume ge: "2 ^ 53 - 1 / 2 \<le> x"
  have "of_int (2 ^ 53 - 1) \<le> x" using ge by simp
  then have "2 ^ 53 - 1 \<le> \<lfloor>x\<rfloor>" by (simp only: le_floor_iff)
  moreover have "\<lfloor>x\<rfloor> \<le> 2 ^ 53 - 1" using assms by (simp add: floor_le_iff)
  ultimately have fl: "\<lfloor>x\<rfloor> = 2 ^ 53 - 1" by linarith
  then have d: "1 / 2 \<le> x - of_int \<lfloor>x\<rfloor>" using ge by simp
  have odd: "\<not> even \<lfloor>x\<rfloor>" by (simp add: fl)
  show "round_half_even x = 2 ^ 53"
    using d odd fl by (simp add: round_half_even_def Let_def)
qed

lemma int_to_float_overflow_iff:
  assumes "0 < n"
  shows "int_to_float n = Inl OverflowError \<longleftrightarrow> 2 ^ 1024 - 2 ^ 970 \<le> n"
proof (cases "2 ^ 1024 \<le> n")
  case True
  then have "int_to_float n = Inl OverflowError" by (rule int_to_float_too_large)
  moreover have "(2 :: int) ^ 1024 - 2 ^ 970 \<le> 2 ^ 1024" by simp
  ultimately show ?thesis using True by linarith
next
  case False
  then have lt: "n < 2 ^ 1024" by simp
  define e where "e = bitlen n - 1"
  have n1: "1 \<le> n" using assms by simp
  have il: "ilog2 (of_int n) = e" using n1 by (simp add: ilog2_def e_def)
  have "bitlen n \<le> 1024" using lt by (simp add: bitlen_le_iff_power)
  then have e_le: "e \<le> 1023" by (simp add: e_def)
  have "1 \<le> bitlen n" using n1 by (simp add: bitlen_ge_iff_power)
  then have e0: "0 \<le> e" by (simp add: e_def)
  have e': "max (ilog2 (of_int n)) (- 1022) = e" using il e0 by simp
  have an: "\<bar>of_int n :: rat\<bar> = of_int n" "(of_int n :: rat) \<noteq> 0" "0 < (of_int n :: rat)"
    using assms by simp_all
  define m where "m = round_half_even (of_int n / pow2 (e - 52))"
  have "\<not> 1024 \<le> e" using e_le by simp
  then have rd: "round_to_double (of_int n)
      = (if e = 1023 \<and> m = 2 ^ 53 then PosInf else Finite (of_int m * pow2 (e - 52)))"
    unfolding round_to_double_def Let_def an e' m_def [symmetric]
    using assms by (simp add: an)
  have ov: "int_to_float n = Inl OverflowError \<longleftrightarrow> e = 1023 \<and> m = 2 ^ 53"
    by (simp add: int_to_float_def rd)
  show ?thesis
  proof (cases "e = 1023")
    case True
    have pw: "pow2 (e - 52) = 2 ^ 971" by (simp add: True pow2_def)
    have "(of_int n :: rat) < 2 ^ 1024" using lt by (metis of_int_less_iff of_int_numeral of_int_power)
    then have x_lt: "of_int n / (2 :: rat) ^ 971 < 2 ^ 53" by (simp add: field_simps)
    have "m = 2 ^ 53 \<longleftrightarrow> 2 ^ 53 - 1 / 2 \<le> of_int n / (2 :: rat) ^ 971"
      unfolding m_def pw using x_lt by (rule round_half_even_top)
    also have "\<dots> \<longleftrightarrow> (2 :: rat) ^ 1024 - 2 ^ 970 \<le> of_int n" by (simp add: field_simps)
    also have "\<dots> \<longleftrightarrow> of_int (2 ^ 1024 - 2 ^ 970) \<le> (of_int n :: rat)" by simp
    also have "\<dots> \<longleftrightarrow> 2 ^ 1024 - 2 ^ 970 \<le> n" by (simp only: of_int_le_iff)
    finally show ?thesis using ov True by simp
  next
    case False
    with e_le have "e \<le> 1022" by simp
    then have "bitlen n \<le> 1023" by (simp add: e_def)
    then have "n < 2 ^ 1023" by (simp add: bitlen_le_iff_power)
    moreover have "(2 :: int) ^ 1023 \<le> 2 ^ 1024 - 2 ^ 970" by simp
    ultimately have "\<not> 2 ^ 1024 - 2 ^ 970 \<le> n" by linarith
    with ov False show ?thesis by simp
  qed
qed

subsection \<open>The loops in closed form\<close>



lemma int_to_float_converts: "qty_converts it \<Longrightarrow> int_to_float (qty it) = Inr (float_of_qty it)"
  by (auto simp: qty_converts_def int_to_float_def float_of_qty_def split: pyfloat.splits sum.splits)

lemma int_to_float_overflows: "\<not> qty_converts it \<Longrightarrow> int_to_float (qty it) = Inl OverflowError"
  by (auto simp: qty_converts_def int_to_float_def split: pyfloat.splits sum.splits)

lemma subtotal_loop_converts:
  "list_all qty_converts its \<Longrightarrow>
   subtotal_loop its (s, f) =
     Inr (foldl (\<lambda>subtotal it. fadd subtotal (fmul (unit_price it) (float_of_qty it))) s its,
          foldl (\<lambda>fee it. fadd fee (fmul (Finite 5) (float_of_qty it))) f (filter fragile its))"
  by (induction its arbitrary: s f) (simp_all add: int_to_float_converts Let_def)

lemma subtotal_loop_overflows:
  "\<not> list_all qty_converts its \<Longrightarrow> subtotal_loop its (s, f) = Inl OverflowError"
proof (induction its arbitrary: s f)
  case Nil
  then show ?case by simp
next
  case (Cons it rest)
  show ?case
  proof (cases "qty_converts it")
    case True
    with Cons.prems have "\<not> list_all qty_converts rest" by simp
    with Cons.IH True show ?thesis by (simp add: int_to_float_converts Let_def)
  next
    case False
    then show ?thesis by (simp add: int_to_float_overflows)
  qed
qed

lemma calculate_subtotal_converts:
  "list_all qty_converts its \<Longrightarrow>
   calculate_subtotal_and_fragile_fee its = Inr (spec_subtotal its, spec_fragile_fee its)"
  by (simp add: calculate_subtotal_and_fragile_fee_def subtotal_loop_converts
      spec_subtotal_def spec_fragile_fee_def)

lemma calculate_subtotal_overflows:
  "\<not> list_all qty_converts its \<Longrightarrow> calculate_subtotal_and_fragile_fee its = Inl OverflowError"
  by (simp add: calculate_subtotal_and_fragile_fee_def subtotal_loop_overflows)

lemma validate_item_append: "validate_item it ps = ps @ validate_item it []"
  by (simp add: validate_item_def Let_def)

lemma validate_items_append:
  "validate_items its ps = ps @ concat (map (\<lambda>it. validate_item it []) its)"
proof (induction its arbitrary: ps)
  case Nil
  show ?case by simp
next
  case (Cons it rest)
  have "validate_items (it # rest) ps = validate_items rest (validate_item it ps)" by simp
  also have "\<dots> = validate_item it ps @ concat (map (\<lambda>it. validate_item it []) rest)"
    by (rule Cons.IH)
  also have "validate_item it ps = ps @ validate_item it []" by (rule validate_item_append)
  finally show ?case by simp
qed

lemma validate_Some:
  "validate (Some invc) = header_problems invc @ concat (map (\<lambda>it. validate_item it []) (items invc))"
  by (simp add: validate_def header_problems_def Let_def validate_items_append)

lemma qty_converts_iff_fits: "0 < qty it \<Longrightarrow> qty_converts it = qty_fits it"
  using int_to_float_overflow_iff [of "qty it"]
  by (auto simp: qty_converts_def qty_fits_def int_to_float_def split: pyfloat.splits sum.splits)

lemma validate_item_Nil_qty: "validate_item it [] = [] \<Longrightarrow> 0 < qty it"
  by (simp add: validate_item_def Let_def split: if_splits)

lemma validate_items_Nil_qty:
  "validate_items its ps = [] \<Longrightarrow> list_all (\<lambda>it. 0 < qty it) its"
  by (simp add: validate_items_append list_all_iff validate_item_Nil_qty)

lemma validate_qty_pos:
  "validate (Some invc) = [] \<Longrightarrow> list_all (\<lambda>it. 0 < qty it) (items invc)"
  by (simp add: validate_def Let_def) (rule validate_items_Nil_qty)

lemma fits_converts:
  assumes "validate (Some invc) = []"
  shows "list_all qty_converts (items invc) = list_all qty_fits (items invc)"
  using validate_qty_pos [OF assms]
  by (auto simp: list_all_iff qty_converts_iff_fits)

subsection \<open>The helpers in closed form; the table lookups never raise\<close>

lemma subscript_shipping_default:
  "subscript SHIPPING_CONFIG ''DEFAULT'' = Inr (Finite 200, Finite 25)"
  by (simp add: subscript_def SHIPPING_CONFIG_def)

lemma subscript_tax_default: "subscript TAX_RATES ''DEFAULT'' = Inr (float_lit (5 / 100))"
  by (simp add: subscript_def TAX_RATES_def)

lemma calculate_shipping_ok: "calculate_shipping cntry subtotal = Inr (spec_shipping cntry subtotal)"
  by (simp add: calculate_shipping_def subscript_shipping_default Let_def spec_shipping_def
      US_SHIPPING_TIERS_def dict_get_def split: option.splits prod.splits)

lemma calculate_tax_ok: "calculate_tax cntry amount = Inr (fmul amount (spec_tax_rate cntry))"
  by (simp add: calculate_tax_def subscript_tax_default dict_get_def spec_tax_rate_def
      split: option.splits)

lemma round_to_double_20: "round_to_double 20 = Finite 20"
  by code_simp

lemma calculate_discount_ok:
  "calculate_discount invc subtotal warnings =
     Inr (spec_discount invc subtotal, warnings @ spec_coupon_warning invc)"
proof -
  have m: "(if membership invc \<in> dom MEMBERSHIP_DISCOUNTS
            then (case subscript MEMBERSHIP_DISCOUNTS (membership invc) of
                    Inl e \<Rightarrow> Inl e
                  | Inr rate \<Rightarrow> Inr (fadd (Finite 0) (fmul subtotal rate)))
            else if flt (Finite 3000) subtotal then Inr (fadd (Finite 0) (Finite 20))
            else Inr (Finite 0)) = (Inr (spec_membership_discount invc subtotal) :: error + pyfloat)"
    by (auto simp: spec_membership_discount_def subscript_def round_to_double_20 fadd_zero_fmul
        split: option.splits)
  show ?thesis
    unfolding calculate_discount_def Let_def m
    by (auto simp: spec_discount_def spec_coupon_term_def spec_coupon_warning_def subscript_def
          split: option.splits)
qed

subsection \<open>The total\<close>

lemma compute_total_ok:
  assumes "validate (Some invc) = []" and "list_all qty_converts (items invc)"
  shows "compute_total (Some invc) =
     Inr (py_max (Finite 0)
            (fsub (fadd (fadd (fadd (spec_subtotal (items invc))
                                    (spec_shipping (country invc) (spec_subtotal (items invc))))
                              (spec_fragile_fee (items invc)))
                        (fmul (fsub (spec_subtotal (items invc))
                                    (spec_discount invc (spec_subtotal (items invc))))
                              (spec_tax_rate (country invc))))
                  (spec_discount invc (spec_subtotal (items invc)))),
          spec_coupon_warning invc @ spec_upgrade_warning invc)"
  using assms
  by (simp add: compute_total_def calculate_subtotal_converts
      calculate_discount_ok calculate_tax_ok calculate_shipping_ok spec_upgrade_warning_def Let_def)

lemma compute_total_overflows:
  assumes "validate (Some invc) = []" and "\<not> list_all qty_converts (items invc)"
  shows "compute_total (Some invc) = Inl OverflowError"
  using assms by (simp add: compute_total_def calculate_subtotal_overflows)

lemma compute_total_fits:
  assumes "validate (Some invc) = []" and "list_all qty_fits (items invc)"
  shows "list_all qty_converts (items invc)"
  using assms by (simp add: fits_converts)



lemma validate_huge_qty_invoice: "validate (Some huge_qty_invoice) = []"
  by (simp add: huge_qty_invoice_def scenario_invoice_def validate_def validate_item_def Let_def)

lemma int_to_float_5: "int_to_float 5 = Inr (Finite 5)"
  by code_simp


lemma not_fits_huge_qty_invoice: "\<not> list_all qty_fits (items huge_qty_invoice)"
  by (simp add: huge_qty_invoice_def qty_fits_def)





text \<open>The float arithmetic of the scenario: \<open>4980 \<times> 0.07 = 348.6\<close>,
  \<open>5000 + 348.6 = 5348.6\<close> and \<open>5348.6 - 20 = 5328.6\<close> hold between the doubles.\<close>

lemma round_to_double_5000: "round_to_double 5000 = Finite 5000"
  by code_simp

lemma round_to_double_4980: "round_to_double 4980 = Finite 4980"
  by code_simp

lemma scenario_tax: "fmul (Finite 4980) (float_lit (7 / 100)) = float_lit (1743 / 5)"
  by code_simp

lemma scenario_sum: "fadd (Finite 5000) (float_lit (1743 / 5)) = float_lit (26743 / 5)"
  by code_simp

lemma scenario_total: "fsub (float_lit (26743 / 5)) (Finite 20) = float_lit (26643 / 5)"
  by code_simp

lemma scenario_total_pos: "flt (Finite 0) (float_lit (26643 / 5))"
  by code_simp

text \<open>
  Claim C8. End-to-end: one item (unit price 1000, quantity 5, category \<open>other\<close>, not
  fragile), country \<open>TH\<close>, empty membership, no coupon. The invoice is valid, the subtotal is
  5000, shipping 0, discount 20, tax \<open>(5000 - 20) \<times> 0.07 = 348.6\<close>, the total 5328.6 and
  the warnings list is empty.
\<close>

theorem end_to_end_scenario:
  assumes "invoice_id invc \<noteq> []" and "customer_id invc \<noteq> []"
    and "country invc = ''TH''" and "membership invc = []" and "coupon invc = None"
    and "items invc = [it]"
    and "sku it \<noteq> []" and "unit_price it = Finite 1000" and "qty it = 5"
    and "category it = ''other''" and "\<not> fragile it"
  shows "validate (Some invc) = []
       \<and> calculate_subtotal_and_fragile_fee (items invc) = Inr (Finite 5000, Finite 0)
       \<and> calculate_shipping (country invc) (Finite 5000) = Inr (Finite 0)
       \<and> calculate_discount invc (Finite 5000) [] = Inr (Finite 20, [])
       \<and> calculate_tax (country invc) (fsub (Finite 5000) (Finite 20)) = Inr (float_lit (3486 / 10))
       \<and> compute_total (Some invc) = Inr (float_lit (53286 / 10), [])"
proof -
  have v: "validate (Some invc) = []"
    using assms by (simp add: validate_def validate_item_def Let_def)
  have s: "calculate_subtotal_and_fragile_fee (items invc) = Inr (Finite 5000, Finite 0)"
    using assms
    by (simp add: calculate_subtotal_and_fragile_fee_def int_to_float_5 round_to_double_5000)
  have sh: "calculate_shipping (country invc) (Finite 5000) = Inr (Finite 0)"
    using assms by (simp add: calculate_shipping_ok spec_shipping_def SHIPPING_CONFIG_def)
  have d: "calculate_discount invc (Finite 5000) [] = Inr (Finite 20, [])"
    using assms
    by (simp add: calculate_discount_ok spec_discount_def spec_membership_discount_def
        spec_coupon_term_def spec_coupon_warning_def MEMBERSHIP_DISCOUNTS_def)
  have a: "fsub (Finite 5000) (Finite 20) = Finite 4980"
    by (simp add: fsub_def round_to_double_4980)
  have t: "calculate_tax (country invc) (fsub (Finite 5000) (Finite 20)) = Inr (float_lit (3486 / 10))"
    using assms by (simp add: a calculate_tax_ok spec_tax_rate_def TAX_RATES_def scenario_tax)
  have "compute_total (Some invc) = Inr (float_lit (53286 / 10), [])"
    using v s sh d t assms
    by (simp add: compute_total_def Let_def py_max_def round_to_double_5000
        scenario_sum scenario_total scenario_total_pos)
  with v s sh d t show ?thesis by blast
qed

theorem end_to_end_scenario_witness:
  "validate (Some scenario_invoice) = []
   \<and> calculate_subtotal_and_fragile_fee (items scenario_invoice) = Inr (Finite 5000, Finite 0)
   \<and> calculate_shipping (country scenario_invoice) (Finite 5000) = Inr (Finite 0)
   \<and> calculate_discount scenario_invoice (Finite 5000) [] = Inr (Finite 20, [])
   \<and> calculate_tax (country scenario_invoice) (fsub (Finite 5000) (Finite 20))
       = Inr (float_lit (3486 / 10))
   \<and> compute_total (Some scenario_invoice) = Inr (float_lit (53286 / 10), [])"
  by (rule end_to_end_scenario
        [of scenario_invoice "\<lparr>sku = ''SKU-1'', category = ''other'', unit_price = Finite 1000,
             qty = 5, fragile = False\<rparr>"])
     (simp_all add: scenario_invoice_def)

subsection \<open>Validation failure\<close>

lemma validate_None: "validate None = [''Invoice is missing'']"
  by (simp add: validate_def)

lemma compute_total_calls_result: "snd (compute_total_calls opt_inv) = compute_total opt_inv"
  by (simp add: compute_total_calls_def compute_total_def Let_def
      split: option.splits sum.splits prod.splits)

lemma compute_total_valid_no_ValueError:
  assumes "validate opt_inv = []"
  shows "compute_total opt_inv \<noteq> Inl (ValueError msg)"
proof (cases opt_inv)
  case None
  with assms show ?thesis by (simp add: validate_None)
next
  case (Some invc)
  show ?thesis
  proof (cases "list_all qty_converts (items invc)")
    case True
    with assms Some show ?thesis by (simp add: compute_total_ok)
  next
    case False
    with assms Some show ?thesis by (simp add: compute_total_overflows)
  qed
qed

text \<open>
  Claim C2. \<^verbatim>\<open>compute_total\<close> raises the validation error, a \<^verbatim>\<open>ValueError\<close>, exactly
  when the validator reports at least one problem; its message is the problems joined by
  \<open>; \<close> in the order they were found; and when it is raised the only helper that has been
  called is \<^verbatim>\<open>_validate\<close>: no subtotal, shipping, discount or tax is computed and nothing
  is returned.
\<close>

theorem compute_total_raises_iff:
  "((\<exists>msg. compute_total opt_inv = Inl (ValueError msg)) \<longleftrightarrow> validate opt_inv \<noteq> [])
   \<and> (validate opt_inv \<noteq> [] \<longrightarrow>
        compute_total opt_inv = Inl (ValueError (join ''; '' (validate opt_inv)))
        \<and> compute_total_calls opt_inv
            = ([Call_validate], Inl (ValueError (join ''; '' (validate opt_inv)))))
   \<and> snd (compute_total_calls opt_inv) = compute_total opt_inv"
proof -
  have raised: "compute_total opt_inv = Inl (ValueError (join ''; '' (validate opt_inv)))"
    and calls: "compute_total_calls opt_inv
            = ([Call_validate], Inl (ValueError (join ''; '' (validate opt_inv))))"
    if "validate opt_inv \<noteq> []"
    using that by (simp_all add: compute_total_def compute_total_calls_def Let_def)
  have "(\<exists>msg. compute_total opt_inv = Inl (ValueError msg)) \<longleftrightarrow> validate opt_inv \<noteq> []"
    using raised compute_total_valid_no_ValueError by (cases "validate opt_inv = []") auto
  then show ?thesis
    using raised calls compute_total_calls_result by blast
qed

lemma overflows_huge_qty_invoice: "\<not> list_all qty_converts (items huge_qty_invoice)"
  using not_fits_huge_qty_invoice fits_converts [OF validate_huge_qty_invoice] by simp

theorem compute_total_raises_iff_witness:
  "validate None \<noteq> []
   \<and> compute_total None = Inl (ValueError ''Invoice is missing'')
   \<and> compute_total_calls None = ([Call_validate], Inl (ValueError ''Invoice is missing''))
   \<and> validate (Some huge_qty_invoice) = []
   \<and> compute_total (Some huge_qty_invoice) = Inl OverflowError
   \<and> compute_total_calls (Some huge_qty_invoice)
       = ([Call_validate, Call_calculate_subtotal_and_fragile_fee], Inl OverflowError)"
proof -
  have c: "compute_total_calls (Some huge_qty_invoice)
       = ([Call_validate, Call_calculate_subtotal_and_fragile_fee], Inl OverflowError)"
    by (simp add: compute_total_calls_def validate_huge_qty_invoice
        calculate_subtotal_overflows [OF overflows_huge_qty_invoice])
  have r: "compute_total (Some huge_qty_invoice) = Inl OverflowError"
    using compute_total_raises_iff [of "Some huge_qty_invoice"] c
    by (metis snd_conv)
  show ?thesis
    using compute_total_raises_iff [of None] validate_huge_qty_invoice c r
    by (simp add: validate_None)
qed

subsection \<open>Shipping\<close>

text \<open>
  Claim C3. The shipping fee: for \<open>US\<close>, the fee of the first tier of \<open>(100, 15), (300, 8)\<close>
  whose threshold is above the subtotal, 0 if there is none (50 gives 15, 150 gives 8, 500
  gives 0); for any other country, the country's entry of the shipping table, or the
  \<^verbatim>\<open>DEFAULT\<close> entry \<open>(200, 25)\<close> when the country is absent, gives the fee below its
  threshold and 0 from the threshold on.
\<close>

theorem calculate_shipping_rule:
  "calculate_shipping cntry subtotal =
     Inr (if cntry = ''US''
          then (case find (\<lambda>(threshold, fee). flt subtotal threshold)
                       [(Finite 100, Finite 15), (Finite 300, Finite 8)] of
                  Some (threshold, fee) \<Rightarrow> fee
                | None \<Rightarrow> Finite 0)
          else (case (case SHIPPING_CONFIG cntry of Some entry \<Rightarrow> entry
                      | None \<Rightarrow> (Finite 200, Finite 25)) of
                  (threshold, fee) \<Rightarrow> if flt subtotal threshold then fee else Finite 0))
   \<and> calculate_shipping ''US'' (Finite 50) = Inr (Finite 15)
   \<and> calculate_shipping ''US'' (Finite 150) = Inr (Finite 8)
   \<and> calculate_shipping ''US'' (Finite 500) = Inr (Finite 0)
   \<and> SHIPPING_CONFIG ''FR'' = None
   \<and> SHIPPING_CONFIG ''DEFAULT'' = Some (Finite 200, Finite 25)
   \<and> calculate_shipping ''FR'' (Finite 199) = Inr (Finite 25)
   \<and> calculate_shipping ''FR'' (Finite 200) = Inr (Finite 0)"
proof -
  have general: "calculate_shipping cntry subtotal =
     Inr (if cntry = ''US''
          then (case find (\<lambda>(threshold, fee). flt subtotal threshold)
                       [(Finite 100, Finite 15), (Finite 300, Finite 8)] of
                  Some (threshold, fee) \<Rightarrow> fee
                | None \<Rightarrow> Finite 0)
          else (case (case SHIPPING_CONFIG cntry of Some entry \<Rightarrow> entry
                      | None \<Rightarrow> (Finite 200, Finite 25)) of
                  (threshold, fee) \<Rightarrow> if flt subtotal threshold then fee else Finite 0))"
    by (simp add: calculate_shipping_ok spec_shipping_def)
  have us: "calculate_shipping ''US'' (Finite 50) = Inr (Finite 15)"
      "calculate_shipping ''US'' (Finite 150) = Inr (Finite 8)"
      "calculate_shipping ''US'' (Finite 500) = Inr (Finite 0)"
    by (simp_all add: calculate_shipping_ok spec_shipping_def)
  have tbl: "SHIPPING_CONFIG ''FR'' = None" "SHIPPING_CONFIG ''DEFAULT'' = Some (Finite 200, Finite 25)"
    by (simp_all add: SHIPPING_CONFIG_def)
  have fr: "calculate_shipping ''FR'' (Finite 199) = Inr (Finite 25)"
      "calculate_shipping ''FR'' (Finite 200) = Inr (Finite 0)"
    by (simp_all add: calculate_shipping_ok spec_shipping_def tbl)
  show ?thesis using general us tbl fr by blast
qed

theorem calculate_shipping_rule_witness:
  "calculate_shipping ''JP'' (Finite 3999) = Inr (Finite 600)
   \<and> calculate_shipping ''JP'' (Finite 4000) = Inr (Finite 0)
   \<and> calculate_shipping ''US'' (Finite 99) = Inr (Finite 15)
   \<and> calculate_shipping ''US'' (Finite 100) = Inr (Finite 8)
   \<and> calculate_shipping ''US'' (Finite 300) = Inr (Finite 0)
   \<and> calculate_shipping ''US'' NaN = Inr (Finite 0)
   \<and> calculate_shipping ''DE'' (Finite 0) = Inr (Finite 25)"
proof -
  have jp: "SHIPPING_CONFIG ''JP'' = Some (Finite 4000, Finite 600)"
    and de: "SHIPPING_CONFIG ''DE'' = None"
    by (simp_all add: SHIPPING_CONFIG_def)
  have "calculate_shipping ''JP'' (Finite 3999) = Inr (Finite 600)"
    using calculate_shipping_rule [of "''JP''" "Finite 3999", THEN conjunct1] jp by simp
  moreover have "calculate_shipping ''JP'' (Finite 4000) = Inr (Finite 0)"
    using calculate_shipping_rule [of "''JP''" "Finite 4000", THEN conjunct1] jp by simp
  moreover have "calculate_shipping ''US'' (Finite 99) = Inr (Finite 15)"
    using calculate_shipping_rule [of "''US''" "Finite 99", THEN conjunct1] by simp
  moreover have "calculate_shipping ''US'' (Finite 100) = Inr (Finite 8)"
    using calculate_shipping_rule [of "''US''" "Finite 100", THEN conjunct1] by simp
  moreover have "calculate_shipping ''US'' (Finite 300) = Inr (Finite 0)"
    using calculate_shipping_rule [of "''US''" "Finite 300", THEN conjunct1] by simp
  moreover have "calculate_shipping ''US'' NaN = Inr (Finite 0)"
    using calculate_shipping_rule [of "''US''" NaN, THEN conjunct1] by simp
  moreover have "calculate_shipping ''DE'' (Finite 0) = Inr (Finite 25)"
    using calculate_shipping_rule [of "''DE''" "Finite 0", THEN conjunct1] de by simp
  ultimately show ?thesis by blast
qed

subsection \<open>Discount\<close>

lemma gold_4000: "fmul (Finite 4000) (float_lit (3 / 100)) = Finite 120"
  by code_simp

text \<open>
  Claim C4. The membership part of the discount is either the member's rate times the
  subtotal or the flat 20, never both: a membership in the table gets \<open>subtotal \<times> rate\<close>
  and no flat 20; the flat 20 is added only when the membership is not in the table and the
  subtotal is above 3000. A gold member with subtotal 4000 gets 120.
\<close>

theorem membership_discount_exclusive:
  "(\<exists>warnings'. calculate_discount invc subtotal warnings
        = Inr (case spec_coupon_term invc subtotal of
                 None \<Rightarrow> spec_membership_discount invc subtotal
               | Some amount \<Rightarrow> fadd (spec_membership_discount invc subtotal) amount, warnings'))
   \<and> calculate_discount (invc\<lparr>coupon := None\<rparr>) subtotal warnings
        = Inr (spec_membership_discount invc subtotal, warnings)
   \<and> (membership invc \<in> dom MEMBERSHIP_DISCOUNTS \<longrightarrow>
        spec_membership_discount invc subtotal
          = fmul subtotal (the (MEMBERSHIP_DISCOUNTS (membership invc))))
   \<and> (membership invc \<notin> dom MEMBERSHIP_DISCOUNTS \<longrightarrow>
        spec_membership_discount invc subtotal
          = (if flt (Finite 3000) subtotal then Finite 20 else Finite 0))
   \<and> (membership invc = ''gold'' \<and> subtotal = Finite 4000 \<longrightarrow>
        spec_membership_discount invc subtotal = Finite 120
        \<and> calculate_discount (invc\<lparr>coupon := None\<rparr>) subtotal warnings = Inr (Finite 120, warnings))"
proof -
  have a: "\<exists>warnings'. calculate_discount invc subtotal warnings
        = Inr (case spec_coupon_term invc subtotal of
                 None \<Rightarrow> spec_membership_discount invc subtotal
               | Some amount \<Rightarrow> fadd (spec_membership_discount invc subtotal) amount, warnings')"
    by (simp add: calculate_discount_ok spec_discount_def)
  have b: "calculate_discount (invc\<lparr>coupon := None\<rparr>) subtotal warnings
        = Inr (spec_membership_discount invc subtotal, warnings)"
    by (simp add: calculate_discount_ok spec_discount_def spec_membership_discount_def
        spec_coupon_term_def spec_coupon_warning_def)
  have c: "spec_membership_discount invc subtotal
          = fmul subtotal (the (MEMBERSHIP_DISCOUNTS (membership invc)))"
    if "membership invc \<in> dom MEMBERSHIP_DISCOUNTS"
    using that by (auto simp: spec_membership_discount_def)
  have d: "spec_membership_discount invc subtotal
          = (if flt (Finite 3000) subtotal then Finite 20 else Finite 0)"
    if "membership invc \<notin> dom MEMBERSHIP_DISCOUNTS"
    using that by (auto simp: spec_membership_discount_def split: option.splits)
  have e: "spec_membership_discount invc subtotal = Finite 120"
    if "membership invc = ''gold''" "subtotal = Finite 4000"
    using that by (simp add: spec_membership_discount_def MEMBERSHIP_DISCOUNTS_def gold_4000)
  show ?thesis using a b c d e by metis
qed

theorem membership_discount_exclusive_witness:
  "membership gold_invoice \<in> dom MEMBERSHIP_DISCOUNTS
   \<and> membership gold_invoice = ''gold''
   \<and> calculate_discount gold_invoice (Finite 4000) [] = Inr (Finite 120, [])
   \<and> membership scenario_invoice \<notin> dom MEMBERSHIP_DISCOUNTS
   \<and> calculate_discount scenario_invoice (Finite 4000) [] = Inr (Finite 20, [])"
proof -
  have g: "membership gold_invoice = ''gold''" "gold_invoice\<lparr>coupon := None\<rparr> = gold_invoice"
    by (simp_all add: gold_invoice_def scenario_invoice_def)
  have s: "membership scenario_invoice \<notin> dom MEMBERSHIP_DISCOUNTS"
      "scenario_invoice\<lparr>coupon := None\<rparr> = scenario_invoice"
    by (simp_all add: scenario_invoice_def MEMBERSHIP_DISCOUNTS_def domIff)
  have gd: "membership gold_invoice \<in> dom MEMBERSHIP_DISCOUNTS"
    by (simp add: g MEMBERSHIP_DISCOUNTS_def domIff)
  have d1: "calculate_discount gold_invoice (Finite 4000) [] = Inr (Finite 120, [])"
    using membership_discount_exclusive [of gold_invoice "Finite 4000" "[]",
        THEN conjunct2, THEN conjunct2, THEN conjunct2, THEN conjunct2] g
    by simp
  have d2: "calculate_discount scenario_invoice (Finite 4000) [] = Inr (Finite 20, [])"
    using membership_discount_exclusive [of scenario_invoice "Finite 4000" "[]",
        THEN conjunct2, THEN conjunct1]
      membership_discount_exclusive [of scenario_invoice "Finite 4000" "[]",
        THEN conjunct2, THEN conjunct2, THEN conjunct2, THEN conjunct1] s
    by simp
  show ?thesis using g s gd d1 d2 by simp
qed

lemma strip_padded: "strip '' WELCOME10 '' = ''WELCOME10''"
  by (simp add: strip_def is_space_def)

lemma strip_bogus: "strip ''BOGUS'' = ''BOGUS''"
  by (simp add: strip_def is_space_def)

lemma strip_Nil: "strip [] = []"
  by (simp add: strip_def)

text \<open>
  Claim C5, as stated for every coupon that is not \<^verbatim>\<open>None\<close>, fails for the empty
  string, which \<^verbatim>\<open>if inv.coupon\<close> skips: the empty coupon is not \<^verbatim>\<open>None\<close> and its
  trimmed code is not in the coupon table, yet no warning is appended.
\<close>

theorem unknown_coupon_counterexample:
  "coupon empty_coupon_invoice = Some []
   \<and> strip [] \<notin> dom COUPON_RATES
   \<and> calculate_discount empty_coupon_invoice (Finite 5000) [] = Inr (Finite 20, [])
   \<and> compute_total (Some empty_coupon_invoice) = Inr (float_lit (53286 / 10), [])"
proof -
  have i: "items empty_coupon_invoice = items scenario_invoice"
      "country empty_coupon_invoice = ''TH''" "membership empty_coupon_invoice = []"
      "coupon empty_coupon_invoice = Some []"
    by (simp_all add: empty_coupon_invoice_def scenario_invoice_def)
  have v: "validate (Some empty_coupon_invoice) = []"
    by (simp add: empty_coupon_invoice_def scenario_invoice_def validate_def validate_item_def Let_def)
  have s: "calculate_subtotal_and_fragile_fee (items empty_coupon_invoice)
             = Inr (Finite 5000, Finite 0)"
    by (simp add: i scenario_invoice_def calculate_subtotal_and_fragile_fee_def int_to_float_5
        round_to_double_5000)
  have sh: "calculate_shipping (country empty_coupon_invoice) (Finite 5000) = Inr (Finite 0)"
    by (simp add: i calculate_shipping_ok spec_shipping_def SHIPPING_CONFIG_def)
  have d: "calculate_discount empty_coupon_invoice (Finite 5000) [] = Inr (Finite 20, [])"
    by (simp add: i calculate_discount_ok spec_discount_def spec_membership_discount_def
        spec_coupon_term_def spec_coupon_warning_def MEMBERSHIP_DISCOUNTS_def)
  have a: "fsub (Finite 5000) (Finite 20) = Finite 4980"
    by (simp add: fsub_def round_to_double_4980)
  have t: "calculate_tax (country empty_coupon_invoice) (Finite 4980) = Inr (float_lit (3486 / 10))"
    by (simp add: i calculate_tax_ok spec_tax_rate_def TAX_RATES_def scenario_tax)
  have r: "compute_total (Some empty_coupon_invoice) = Inr (float_lit (53286 / 10), [])"
    using v s sh d t
    by (simp add: compute_total_def Let_def py_max_def a i round_to_double_5000
        scenario_sum scenario_total scenario_total_pos)
  show ?thesis
    using d r by (simp add: i strip_Nil COUPON_RATES_def domIff)
qed

text \<open>
  Claim C5, amended. For every invoice whose coupon is neither \<^verbatim>\<open>None\<close> nor the empty
  string, the coupon is trimmed and looked up: a code in the coupon table adds
  \<open>subtotal \<times> rate\<close> to the discount and appends no warning; any other code adds nothing and
  appends \<open>Unknown coupon\<close> once. A coupon that is \<^verbatim>\<open>None\<close> or empty does neither.
\<close>

theorem coupon_discount_rule:
  "(coupon invc = Some c \<and> c \<noteq> [] \<and> COUPON_RATES (strip c) = Some rate \<longrightarrow>
      calculate_discount invc subtotal warnings
        = Inr (fadd (spec_membership_discount invc subtotal) (fmul subtotal rate), warnings))
   \<and> (coupon invc = Some c \<and> c \<noteq> [] \<and> COUPON_RATES (strip c) = None \<longrightarrow>
      calculate_discount invc subtotal warnings
        = Inr (spec_membership_discount invc subtotal, warnings @ [''Unknown coupon'']))
   \<and> (coupon invc = None \<or> coupon invc = Some [] \<longrightarrow>
      calculate_discount invc subtotal warnings
        = Inr (spec_membership_discount invc subtotal, warnings))"
  by (auto simp: calculate_discount_ok spec_discount_def spec_coupon_term_def
      spec_coupon_warning_def)

lemma welcome_1000: "fadd (Finite 0) (fmul (Finite 1000) (float_lit (1 / 10))) = Finite 100"
  by code_simp

theorem coupon_discount_rule_witness:
  "coupon padded_coupon_invoice = Some '' WELCOME10 ''
   \<and> COUPON_RATES (strip '' WELCOME10 '') = Some (float_lit (10 / 100))
   \<and> calculate_discount padded_coupon_invoice (Finite 1000) [] = Inr (Finite 100, [])
   \<and> coupon bogus_coupon_invoice = Some ''BOGUS''
   \<and> COUPON_RATES (strip ''BOGUS'') = None
   \<and> calculate_discount bogus_coupon_invoice (Finite 1000) [] = Inr (Finite 0, [''Unknown coupon''])
   \<and> coupon scenario_invoice = None
   \<and> calculate_discount scenario_invoice (Finite 1000) [] = Inr (Finite 0, [])
   \<and> coupon empty_coupon_invoice = Some []
   \<and> calculate_discount empty_coupon_invoice (Finite 1000) [] = Inr (Finite 0, [])"
proof -
  have c: "coupon padded_coupon_invoice = Some '' WELCOME10 ''"
      "coupon bogus_coupon_invoice = Some ''BOGUS''"
      "coupon scenario_invoice = None"
      "coupon empty_coupon_invoice = Some []"
    by (simp_all add: padded_coupon_invoice_def bogus_coupon_invoice_def
        empty_coupon_invoice_def scenario_invoice_def)
  have r: "COUPON_RATES (strip '' WELCOME10 '') = Some (float_lit (1 / 10))"
      "COUPON_RATES (strip ''BOGUS'') = None"
    by (simp_all add: strip_padded strip_bogus COUPON_RATES_def)
  have m: "spec_membership_discount padded_coupon_invoice (Finite 1000) = Finite 0"
      "spec_membership_discount bogus_coupon_invoice (Finite 1000) = Finite 0"
      "spec_membership_discount scenario_invoice (Finite 1000) = Finite 0"
      "spec_membership_discount empty_coupon_invoice (Finite 1000) = Finite 0"
    by (simp_all add: spec_membership_discount_def padded_coupon_invoice_def
        bogus_coupon_invoice_def empty_coupon_invoice_def scenario_invoice_def
        MEMBERSHIP_DISCOUNTS_def)
  have p: "calculate_discount padded_coupon_invoice (Finite 1000) [] = Inr (Finite 100, [])"
    using coupon_discount_rule [of padded_coupon_invoice "'' WELCOME10 ''" "float_lit (1 / 10)"
        "Finite 1000" "[]", THEN conjunct1] c r m
    by (simp add: welcome_1000)
  have b: "calculate_discount bogus_coupon_invoice (Finite 1000) []
             = Inr (Finite 0, [''Unknown coupon''])"
    using coupon_discount_rule [of bogus_coupon_invoice "''BOGUS''" NaN "Finite 1000" "[]",
        THEN conjunct2, THEN conjunct1] c r m
    by simp
  have n: "calculate_discount scenario_invoice (Finite 1000) [] = Inr (Finite 0, [])"
    using coupon_discount_rule [of scenario_invoice "[]" NaN "Finite 1000" "[]",
        THEN conjunct2, THEN conjunct2] c m
    by simp
  have e: "calculate_discount empty_coupon_invoice (Finite 1000) [] = Inr (Finite 0, [])"
    using coupon_discount_rule [of empty_coupon_invoice "[]" NaN "Finite 1000" "[]",
        THEN conjunct2, THEN conjunct2] c m
    by simp
  show ?thesis using c r p b n e by simp
qed

subsection \<open>Warnings\<close>

lemma validate_big_bogus_invoice: "validate (Some big_bogus_invoice) = []"
  by (simp add: big_bogus_invoice_def validate_def validate_item_def Let_def)

lemma fits_big_bogus_invoice: "list_all qty_fits (items big_bogus_invoice)"
  by (simp add: big_bogus_invoice_def qty_fits_def)

lemma converts_big_bogus_invoice: "list_all qty_converts (items big_bogus_invoice)"
  using validate_big_bogus_invoice fits_big_bogus_invoice by (rule compute_total_fits)

lemma subtotal_big_bogus_invoice: "spec_subtotal (items big_bogus_invoice) = Finite 15000"
  by code_simp

lemma validate_rounding_invoice: "validate (Some rounding_invoice) = []"
  by (simp add: rounding_invoice_def scenario_invoice_def validate_def validate_item_def Let_def)

lemma fits_rounding_invoice: "list_all qty_fits (items rounding_invoice)"
  by (simp add: rounding_invoice_def qty_fits_def)

lemma converts_rounding_invoice: "list_all qty_converts (items rounding_invoice)"
  using validate_rounding_invoice fits_rounding_invoice by (rule compute_total_fits)




lemma compute_total_warnings:
  assumes "compute_total opt_inv = Inr (tot, warnings)"
  shows "\<exists>invc. opt_inv = Some invc \<and> validate (Some invc) = []
           \<and> list_all qty_converts (items invc)
           \<and> warnings = spec_coupon_warning invc @ spec_upgrade_warning invc"
proof (cases opt_inv)
  case None
  with assms show ?thesis by (simp add: compute_total_def validate_None)
next
  case (Some invc)
  have v: "validate (Some invc) = []"
  proof (rule ccontr)
    assume "validate (Some invc) \<noteq> []"
    with assms Some show False by (simp add: compute_total_def)
  qed
  have c: "list_all qty_converts (items invc)"
  proof (rule ccontr)
    assume "\<not> list_all qty_converts (items invc)"
    from compute_total_overflows [OF v this] assms Some show False by simp
  qed
  from compute_total_ok [OF v c] assms Some
  have "warnings = spec_coupon_warning invc @ spec_upgrade_warning invc" by simp
  with Some v c show ?thesis by simp
qed




text \<open>
  Claim C9. Whenever \<^verbatim>\<open>compute_total\<close> returns, the warnings list has at most two
  elements, each of them \<open>Unknown coupon\<close> or \<open>Consider membership upgrade\<close>, and none
  twice.
\<close>

theorem warnings_bounded:
  assumes "compute_total opt_inv = Inr (tot, warnings)"
  shows "length warnings \<le> 2
       \<and> set warnings \<subseteq> {''Unknown coupon'', ''Consider membership upgrade''}
       \<and> distinct warnings"
proof -
  from compute_total_warnings [OF assms] obtain invc where
    w: "warnings = spec_coupon_warning invc @ spec_upgrade_warning invc" by blast
  have c: "spec_coupon_warning invc = [] \<or> spec_coupon_warning invc = [''Unknown coupon'']"
    by (simp add: spec_coupon_warning_def split: option.splits)
  have u: "spec_upgrade_warning invc = []
         \<or> spec_upgrade_warning invc = [''Consider membership upgrade'']"
    by (simp add: spec_upgrade_warning_def)
  from c u show ?thesis
    unfolding w by (elim disjE) simp_all
qed

theorem warnings_bounded_witness:
  "(\<exists>tot. compute_total (Some big_bogus_invoice)
         = Inr (tot, [''Unknown coupon'', ''Consider membership upgrade'']))
   \<and> length [''Unknown coupon'', ''Consider membership upgrade''] \<le> 2
   \<and> set [''Unknown coupon'', ''Consider membership upgrade'']
       \<subseteq> {''Unknown coupon'', ''Consider membership upgrade''}
   \<and> distinct [''Unknown coupon'', ''Consider membership upgrade'']"
proof -
  have c: "spec_coupon_warning big_bogus_invoice = [''Unknown coupon'']"
    by (simp add: spec_coupon_warning_def big_bogus_invoice_def strip_bogus COUPON_RATES_def)
  have u: "spec_upgrade_warning big_bogus_invoice = [''Consider membership upgrade'']"
    by (simp add: spec_upgrade_warning_def subtotal_big_bogus_invoice)
       (simp add: big_bogus_invoice_def)
  from compute_total_ok [OF validate_big_bogus_invoice converts_big_bogus_invoice] c u
  obtain tot where r: "compute_total (Some big_bogus_invoice)
         = Inr (tot, [''Unknown coupon'', ''Consider membership upgrade''])"
    by simp
  from warnings_bounded [OF r] r show ?thesis by blast
qed

subsection \<open>Validation\<close>

lemma qty_messages_of_item:
  "filter (prefix ''Invalid qty for '') (validate_item it [])
     = (if qty it \<le> 0 then [''Invalid qty for '' @ sku it] else [])"
  by (simp add: validate_item_def Let_def)

lemma qty_messages_of_items:
  "filter (prefix ''Invalid qty for '') (concat (map (\<lambda>it. validate_item it []) its))
     = map (\<lambda>it. ''Invalid qty for '' @ sku it) (filter (\<lambda>it. qty it \<le> 0) its)"
  by (induction its) (simp_all add: qty_messages_of_item)

lemma qty_messages_of_header: "filter (prefix ''Invalid qty for '') (header_problems invc) = []"
  by (simp add: header_problems_def)

text \<open>
  Claim C6. Validation checks every item, in order, whatever the earlier items produced:
  the problems are those of the invoice header followed by those of each item in turn, so
  the quantity messages are exactly one per item with \<open>qty \<le> 0\<close>, in item order (two such
  items give two messages); and an invoice with an empty id and no items is rejected with
  \<open>Missing invoice_id\<close> before \<open>Invoice must contain items\<close>.
\<close>

theorem validate_exhaustive:
  "validate (Some invc) = header_problems invc @ concat (map (\<lambda>it. validate_item it []) (items invc))
   \<and> filter (prefix ''Invalid qty for '') (validate (Some invc))
       = map (\<lambda>it. ''Invalid qty for '' @ sku it) (filter (\<lambda>it. qty it \<le> 0) (items invc))
   \<and> (items invc = [a, b] \<and> qty a \<le> 0 \<and> qty b \<le> 0 \<longrightarrow>
        filter (prefix ''Invalid qty for '') (validate (Some invc))
          = [''Invalid qty for '' @ sku a, ''Invalid qty for '' @ sku b])
   \<and> (invoice_id invc = [] \<and> items invc = [] \<longrightarrow>
        validate (Some invc)
          = [''Missing invoice_id''] @ (if customer_id invc = [] then [''Missing customer_id''] else [])
            @ [''Invoice must contain items'']
        \<and> compute_total (Some invc)
          = Inl (ValueError (''Missing invoice_id; ''
                 @ (if customer_id invc = [] then ''Missing customer_id; '' else [])
                 @ ''Invoice must contain items'')))"
proof -
  have all: "validate (Some invc)
      = header_problems invc @ concat (map (\<lambda>it. validate_item it []) (items invc))"
    by (rule validate_Some)
  have qty: "filter (prefix ''Invalid qty for '') (validate (Some invc))
       = map (\<lambda>it. ''Invalid qty for '' @ sku it) (filter (\<lambda>it. qty it \<le> 0) (items invc))"
    by (simp only: validate_Some filter_append qty_messages_of_header qty_messages_of_items append_Nil)
  have two: "filter (prefix ''Invalid qty for '') (validate (Some invc))
          = [''Invalid qty for '' @ sku a, ''Invalid qty for '' @ sku b]"
    if "items invc = [a, b]" "qty a \<le> 0" "qty b \<le> 0"
    unfolding qty using that by simp
  have empty: "validate (Some invc)
          = [''Missing invoice_id''] @ (if customer_id invc = [] then [''Missing customer_id''] else [])
            @ [''Invoice must contain items'']"
    if "invoice_id invc = []" "items invc = []"
    using that by (simp add: validate_Some header_problems_def)
  have raised: "compute_total (Some invc)
          = Inl (ValueError (''Missing invoice_id; ''
                 @ (if customer_id invc = [] then ''Missing customer_id; '' else [])
                 @ ''Invoice must contain items''))"
    if "invoice_id invc = []" "items invc = []"
    using that by (simp add: compute_total_def Let_def empty)
  show ?thesis using all qty two empty raised by blast
qed

theorem validate_exhaustive_witness:
  "items two_bad_qty_invoice =
     [\<lparr>sku = ''A'', category = ''book'', unit_price = Finite 1, qty = 0, fragile = False\<rparr>,
      \<lparr>sku = ''B'', category = ''food'', unit_price = Finite 2, qty = - 1, fragile = True\<rparr>]
   \<and> validate (Some two_bad_qty_invoice) = [''Invalid qty for A'', ''Invalid qty for B'']
   \<and> filter (prefix ''Invalid qty for '') (validate (Some two_bad_qty_invoice))
       = [''Invalid qty for A'', ''Invalid qty for B'']
   \<and> invoice_id empty_invoice = [] \<and> items empty_invoice = []
   \<and> compute_total (Some empty_invoice)
       = Inl (ValueError ''Missing invoice_id; Invoice must contain items'')"
proof -
  have i: "items two_bad_qty_invoice =
     [\<lparr>sku = ''A'', category = ''book'', unit_price = Finite 1, qty = 0, fragile = False\<rparr>,
      \<lparr>sku = ''B'', category = ''food'', unit_price = Finite 2, qty = - 1, fragile = True\<rparr>]"
    by (simp add: two_bad_qty_invoice_def)
  have v: "validate (Some two_bad_qty_invoice) = [''Invalid qty for A'', ''Invalid qty for B'']"
    by (simp add: two_bad_qty_invoice_def scenario_invoice_def validate_def validate_item_def Let_def)
  have e: "invoice_id empty_invoice = []" "items empty_invoice = []" "customer_id empty_invoice \<noteq> []"
    by (simp_all add: empty_invoice_def scenario_invoice_def)
  have q: "filter (prefix ''Invalid qty for '') (validate (Some two_bad_qty_invoice))
       = [''Invalid qty for A'', ''Invalid qty for B'']"
    using validate_exhaustive [of two_bad_qty_invoice
        "\<lparr>sku = ''A'', category = ''book'', unit_price = Finite 1, qty = 0, fragile = False\<rparr>"
        "\<lparr>sku = ''B'', category = ''food'', unit_price = Finite 2, qty = - 1, fragile = True\<rparr>",
        THEN conjunct2, THEN conjunct2, THEN conjunct1] i
    by simp
  have r: "compute_total (Some empty_invoice)
       = Inl (ValueError ''Missing invoice_id; Invoice must contain items'')"
    using validate_exhaustive [of empty_invoice, THEN conjunct2, THEN conjunct2, THEN conjunct2] e
    by simp
  show ?thesis
    using i v q r e by simp
qed

subsection \<open>Membership recognition\<close>






end
